theory Spec2Isabelle
  imports Main "HOL-Library.Multiset"
begin

section \<open>The pin manager of js-ipfs (core/components/pin/pin-manager.js)\<close>

text \<open>
  The class \<^verbatim>\<open>PinManager\<close> keeps two JavaScript sets of canonical CID strings,
  \<^verbatim>\<open>directPins\<close> and \<^verbatim>\<open>recursivePins\<close>, answers membership queries, walks the
  DAG below the recursive roots and stores and reloads both sets through the pin-set codec.
  Its collaborators (the \<^verbatim>\<open>cids\<close> library, the DAG service, the datastore, the
  pin-set codec of \<^verbatim>\<open>./pin-set\<close>, \<^verbatim>\<open>dag-cbor-links\<close>) are not part of the file:
  they are parameters of the model, collected in the record \<open>env\<close>, and the state they
  hold is the record \<open>world\<close>.
\<close>

subsection \<open>Values\<close>

text \<open>A JavaScript \<^verbatim>\<open>Error\<close>, with the \<^verbatim>\<open>code\<close> property that err-code sets.\<close>

datatype error = Error (message: string) (code: "string option")

text \<open>
  A CID is a version, a codec name and a multihash. A Buffer holding a CID's bytes is
  identified with the CID: \<^verbatim>\<open>new CID(buf)\<close> and \<^verbatim>\<open>cid.buffer\<close> are inverse to
  each other.
\<close>

datatype cid = CID (version: nat) (codec: string) (digest: string)

text \<open>The dag-pb node and link of ipld-dag-pb.\<close>

datatype daglink = DAGLink (Name: string) (Tsize: nat) (Hash: cid)

datatype dagnode = DAGNode (Data: string) (Links: "daglink list")

text \<open>
  What \<^verbatim>\<open>dag.get\<close> resolves to: a dag-pb node, or a value of any other codec, kept
  by its bytes.
\<close>

datatype ipld = PBNode dagnode | OtherNode string

text \<open>
  A JavaScript \<^verbatim>\<open>Set\<close> is a list without repetition in insertion order.
\<close>

type_synonym 'a jsSet = "'a list"

definition setHas :: "'a jsSet \<Rightarrow> 'a \<Rightarrow> bool" where
  "setHas s x = (x \<in> set s)"

definition setAdd :: "'a jsSet \<Rightarrow> 'a \<Rightarrow> 'a jsSet" where
  "setAdd s x = (if x \<in> set s then s else s @ [x])"

definition newSet :: "'a list \<Rightarrow> 'a jsSet" where
  "newSet xs = foldl setAdd [] xs"


subsection \<open>State and collaborators\<close>

text \<open>
  The fields \<^verbatim>\<open>this.directPins\<close> and \<^verbatim>\<open>this.recursivePins\<close> that the
  constructor initialises with \<^verbatim>\<open>new Set()\<close>.
\<close>

record pinManager =
  directPins :: "string jsSet"
  recursivePins :: "string jsSet"

definition constructor :: pinManager where
  "constructor = \<lparr>directPins = [], recursivePins = []\<rparr>"

text \<open>
  The state of the repository, by what its reads answer: \<^verbatim>\<open>dag.get\<close> for each CID,
  \<^verbatim>\<open>datastore.has\<close> and \<^verbatim>\<open>datastore.get\<close> for each key, each a value or the
  error it throws. Two fields say in what order concurrent operations settle:
  \<open>settlesNext\<close> gives, for the descendant tests in flight (in the order they were
  started), the position of the one that settles next (counted from 0; a position past the
  end means the last); \<open>directRejectsFirst\<close> says
  whether, when both \<^verbatim>\<open>loadSet\<close> calls of \<^verbatim>\<open>load\<close> reject, the one for the direct
  set does so before the one for the recursive set.
\<close>

record world =
  dag :: "cid \<Rightarrow> error + ipld"
  datastoreHas :: "string \<Rightarrow> error + bool"
  datastoreGet :: "string \<Rightarrow> error + cid"
  settlesNext :: "cid list \<Rightarrow> nat"
  directRejectsFirst :: bool

text \<open>
  The collaborators whose code is outside the file:
  \<^item> \<open>cidToString\<close> (utils/cid) and \<open>newCID\<close> (\<^verbatim>\<open>new CID(string)\<close>, which throws on
    a string that is no CID);
  \<^item> \<open>dagCborLinks\<close>, the [path, CID] pairs that dag-cbor-links finds in a value;
  \<^item> \<open>nodeSize\<close>, the \<^verbatim>\<open>size\<close> of a dag-pb node (the length of its serialisation),
    and \<open>dagPut\<close>, the \<^verbatim>\<open>dag.put\<close> of the DAG service, which hashes the node;
  \<^item> \<open>datastorePut\<close>, the \<^verbatim>\<open>put\<close> of the datastore;
  \<^item> \<open>storeSet\<close>, \<open>loadSet\<close> and \<open>hasDescendant\<close> of the pin-set codec, the last of
    which may not return (\<open>None\<close>).
\<close>

record env =
  cidToString :: "cid \<Rightarrow> string"
  newCID :: "string \<Rightarrow> error + cid"
  dagCborLinks :: "ipld \<Rightarrow> (string \<times> cid) list"
  nodeSize :: "dagnode \<Rightarrow> nat"
  dagPut :: "world \<Rightarrow> dagnode \<Rightarrow> error + (cid \<times> world)"
  datastorePut :: "world \<Rightarrow> string \<Rightarrow> cid \<Rightarrow> error + world"
  storeSet :: "world \<Rightarrow> cid list \<Rightarrow> error + ((dagnode \<times> cid) \<times> world)"
  loadSet :: "world \<Rightarrow> ipld \<Rightarrow> string \<Rightarrow> error + cid list"
  hasDescendant :: "world \<Rightarrow> cid \<Rightarrow> cid \<Rightarrow> (error + bool) option"

subsection \<open>Constants\<close>

definition IS_PINNED_WITH_TYPE_CONCURRENCY_LIMIT :: nat where
  "IS_PINNED_WITH_TYPE_CONCURRENCY_LIMIT = 300"

definition PIN_DS_KEY :: string where
  "PIN_DS_KEY = ''/local/pins''"

definition direct :: string where
  "direct = ''direct''"

definition recursive :: string where
  "recursive = ''recursive''"

definition indirect :: string where
  "indirect = ''indirect''"

definition all :: string where
  "all = ''all''"


subsection \<open>Type validation\<close>






subsection \<open>Key export\<close>

text \<open>
  \<^verbatim>\<open>Array.from(pins, key => new CID(key).buffer)\<close>: the first key that is no CID makes
  the whole call throw.
\<close>

primrec toKeys :: "env \<Rightarrow> string list \<Rightarrow> error + cid list" where
  "toKeys env [] = Inr []"
| "toKeys env (key # keys) =
     (case newCID env key of
        Inl e \<Rightarrow> Inl e
      | Inr c \<Rightarrow> (case toKeys env keys of Inl e \<Rightarrow> Inl e | Inr cs \<Rightarrow> Inr (c # cs)))"

definition directKeys :: "env \<Rightarrow> pinManager \<Rightarrow> error + cid list" where
  "directKeys env pm = toKeys env (directPins pm)"

definition recursiveKeys :: "env \<Rightarrow> pinManager \<Rightarrow> error + cid list" where
  "recursiveKeys env pm = toKeys env (recursivePins pm)"

subsection \<open>Membership queries\<close>

datatype reason = PinType string | Root cid

record pinInfo =
  key :: string
  pinned :: bool
  reason :: "reason option"

text \<open>
  The scan of the recursive roots. Each task asks
  \<^verbatim>\<open>hasDescendant(childKey, childCID)\<close>, both made from the same recursive key.
  \<^verbatim>\<open>addAll\<close> starts the first 300 tasks at once and queues the rest. \<open>running\<close> are
  the tasks in flight, \<open>queued\<close> those not yet started, \<open>found\<close> the variable
  \<^verbatim>\<open>cid\<close>. The repository says which task in flight settles next:
  \<^item> one whose \<^verbatim>\<open>hasDescendant\<close> never settles keeps the queue from ever being idle,
    and the call does not return (\<open>None\<close>);
  \<^item> one that throws rejects the promise that \<^verbatim>\<open>addAll\<close> returned, which nobody
    awaits, and the queue starts its next task;
  \<^item> one that finds a descendant sets \<^verbatim>\<open>cid\<close> and clears the queue, which stops
    no task in flight: the last of them to find a descendant leaves its root in
    \<^verbatim>\<open>cid\<close>;
  \<^item> one that finds none lets the queue start its next task.
\<close>

function scanRoots ::
  "env \<Rightarrow> world \<Rightarrow> cid list \<Rightarrow> cid list \<Rightarrow> cid option \<Rightarrow> cid option option" where
  "scanRoots env w running queued found =
     (if running = [] then Some found
      else
        (let i = min (settlesNext w running) (length running - 1);
             childKey = running ! i;
             childCID = childKey;
             others = take i running @ drop (Suc i) running
         in case hasDescendant env w childKey childCID of
              None \<Rightarrow> None
            | Some (Inl e) \<Rightarrow> scanRoots env w (others @ take 1 queued) (drop 1 queued) found
            | Some (Inr has) \<Rightarrow>
                if has then scanRoots env w others [] (Some childCID)
                else scanRoots env w (others @ take 1 queued) (drop 1 queued) found))"
  by pat_completeness auto
termination
  by (relation "measure (\<lambda>(env, w, running, queued, found). length running + length queued)")
     (auto simp: Let_def min_def neq_Nil_conv)

declare scanRoots.simps [simp del]

definition isPinnedWithType ::
  "env \<Rightarrow> world \<Rightarrow> pinManager \<Rightarrow> cid \<Rightarrow> string \<Rightarrow> (error + pinInfo) option" where
  "isPinnedWithType env w pm multihash type =
     (let key = cidToString env multihash in
      if (type = recursive \<or> type = all) \<and> setHas (recursivePins pm) key then
        Some (Inr \<lparr>key = key, pinned = True, reason = Some (PinType recursive)\<rparr>)
      else if type = recursive then
        Some (Inr \<lparr>key = key, pinned = False, reason = None\<rparr>)
      else if (type = direct \<or> type = all) \<and> setHas (directPins pm) key then
        Some (Inr \<lparr>key = key, pinned = True, reason = Some (PinType direct)\<rparr>)
      else if type = direct then
        Some (Inr \<lparr>key = key, pinned = False, reason = None\<rparr>)
      else
        (case recursiveKeys env pm of
           Inl e \<Rightarrow> Some (Inl e)
         | Inr keys \<Rightarrow>
             (case scanRoots env w (take IS_PINNED_WITH_TYPE_CONCURRENCY_LIMIT keys)
                     (drop IS_PINNED_WITH_TYPE_CONCURRENCY_LIMIT keys) None of
                None \<Rightarrow> None
              | Some found \<Rightarrow>
                  Some (Inr \<lparr>key = key, pinned = (found \<noteq> None),
                             reason = map_option Root found\<rparr>))))"

subsection \<open>The DAG walk\<close>

text \<open>
  \<^verbatim>\<open>this.dag.get(cid, '/', { preload })\<close>: \<^verbatim>\<open>preload\<close> is a hint to the preload
  nodes and has no part in the value.
\<close>

definition dagGet :: "world \<Rightarrow> cid \<Rightarrow> bool \<Rightarrow> error + ipld" where
  "dagGet w c preload = dag w c"

text \<open>
  The children a task of the walk enqueues, by the codec of the CID. Reading
  \<^verbatim>\<open>Links\<close> of a value that is no dag-pb node throws a TypeError.
\<close>

definition walkLinks :: "env \<Rightarrow> cid \<Rightarrow> ipld \<Rightarrow> error + cid list" where
  "walkLinks env c node =
     (if codec c = ''dag-pb'' then
        (case node of
           PBNode dagPBNode \<Rightarrow> Inr (map Hash (Links dagPBNode))
         | OtherNode _ \<Rightarrow> Inl (Error ''TypeError'' None))
      else if codec c = ''dag-cbor'' then Inr (map snd (dagCborLinks env node))
      else Inr [])"

text \<open>
  The queue of \<^verbatim>\<open>_walkDag\<close> until it is idle. p-queue's \<^verbatim>\<open>add\<close> returns a promise
  for the task's result and \<^verbatim>\<open>addAll\<close> one for all of them; the walk drops both, and
  \<^verbatim>\<open>onIdle\<close> resolves when no task is queued or running, whatever became of the
  tasks. So a task that throws (a failed \<^verbatim>\<open>dag.get\<close>, or the TypeError above, after
  \<^verbatim>\<open>onCid\<close> has run) ends without enqueuing anything, and the queue goes on. The model
  runs the tasks one at a time in the order of the queue: the order in which tasks settle
  decides the order of the \<^verbatim>\<open>onCid\<close> calls, not which CIDs are fetched. \<open>s\<close> is the
  state that \<^verbatim>\<open>onCid\<close> works on. A walk that never becomes idle is \<open>None\<close>.
\<close>

partial_function (option) runQueue ::
  "env \<Rightarrow> world \<Rightarrow> bool \<Rightarrow> (cid \<Rightarrow> 's \<Rightarrow> 's) \<Rightarrow> cid list \<Rightarrow> 's \<Rightarrow> 's option" where
  "runQueue env w preload onCid queue s =
     (case queue of
        [] \<Rightarrow> Some s
      | c # rest \<Rightarrow>
          (case dagGet w c preload of
             Inl e \<Rightarrow> runQueue env w preload onCid rest s
           | Inr node \<Rightarrow>
               (case walkLinks env c node of
                  Inl e \<Rightarrow> runQueue env w preload onCid rest (onCid c s)
                | Inr children \<Rightarrow> runQueue env w preload onCid (rest @ children) (onCid c s))))"

text \<open>
  \<^verbatim>\<open>_walkDag({ cid, preload = false, onCid = () => {} })\<close>: \<^verbatim>\<open>cid\<close> is a CID
  (\<open>Inl\<close>) or a string (\<open>Inr\<close>), which \<^verbatim>\<open>new CID\<close> parses or throws on.
\<close>

definition walkDag ::
  "env \<Rightarrow> world \<Rightarrow> cid + string \<Rightarrow> bool option \<Rightarrow> (cid \<Rightarrow> 's \<Rightarrow> 's) \<Rightarrow> 's
     \<Rightarrow> ((error + unit) \<times> 's) option" where
  "walkDag env w cid preload onCid s =
     (case (case cid of Inl c \<Rightarrow> Inr c | Inr str \<Rightarrow> newCID env str) of
        Inl e \<Rightarrow> Some (Inl e, s)
      | Inr c \<Rightarrow>
          (case runQueue env w (case preload of None \<Rightarrow> False | Some b \<Rightarrow> b) onCid [c] s of
             None \<Rightarrow> None
           | Some s' \<Rightarrow> Some (Inr (), s')))"

text \<open>
  \<^verbatim>\<open>fetchCompleteDag\<close> passes no \<^verbatim>\<open>onCid\<close>, so the default, which does nothing,
  is used. The state of the walk is the manager and the repository.
\<close>

definition fetchCompleteDag ::
  "env \<Rightarrow> world \<Rightarrow> pinManager \<Rightarrow> cid + string \<Rightarrow> bool option
     \<Rightarrow> ((error + unit) \<times> pinManager \<times> world) option" where
  "fetchCompleteDag env w pm cid preload = walkDag env w cid preload (\<lambda>_ s. s) (pm, w)"

subsection \<open>Indirect keys\<close>

text \<open>The \<^verbatim>\<open>onCid\<close> of \<^verbatim>\<open>getIndirectKeys\<close>, on the local set \<^verbatim>\<open>indirectKeys\<close>.\<close>

definition indirectOnCid :: "env \<Rightarrow> pinManager \<Rightarrow> cid \<Rightarrow> string jsSet \<Rightarrow> string jsSet" where
  "indirectOnCid env pm input indirectKeys =
     (let c = cidToString env input in
      if \<not> setHas (recursivePins pm) c then setAdd indirectKeys c else indirectKeys)"

text \<open>The loop over \<^verbatim>\<open>this.recursiveKeys()\<close>, one awaited walk per key.\<close>

primrec indirectLoop ::
  "env \<Rightarrow> world \<Rightarrow> pinManager \<Rightarrow> bool option \<Rightarrow> cid list \<Rightarrow> string jsSet
     \<Rightarrow> (error + string list) option" where
  "indirectLoop env w pm preload [] indirectKeys = Some (Inr indirectKeys)"
| "indirectLoop env w pm preload (mh # rest) indirectKeys =
     (case walkDag env w (Inl mh) (Some (case preload of None \<Rightarrow> False | Some b \<Rightarrow> b))
             (indirectOnCid env pm) indirectKeys of
        None \<Rightarrow> None
      | Some (Inl e, _) \<Rightarrow> Some (Inl e)
      | Some (Inr _, indirectKeys') \<Rightarrow> indirectLoop env w pm preload rest indirectKeys')"

definition getIndirectKeys ::
  "env \<Rightarrow> world \<Rightarrow> pinManager \<Rightarrow> bool option \<Rightarrow> (error + string list) option" where
  "getIndirectKeys env w pm preload =
     (case recursiveKeys env pm of
        Inl e \<Rightarrow> Some (Inl e)
      | Inr keys \<Rightarrow> indirectLoop env w pm preload keys [])"

subsection \<open>Persistence\<close>

text \<open>
  \<^verbatim>\<open>flushPins\<close>: the three branches of \<^verbatim>\<open>Promise.all\<close> in the order they are
  started. The result is the repository after a flush that succeeded, or the error.
\<close>

definition flushPins :: "env \<Rightarrow> pinManager \<Rightarrow> world \<Rightarrow> error + world" where
  "flushPins env pm w =
     (case directKeys env pm of
        Inl e \<Rightarrow> Inl e
      | Inr dKeys \<Rightarrow>
     (case storeSet env w dKeys of
        Inl e \<Rightarrow> Inl e
      | Inr ((dNode, dCid), w1) \<Rightarrow>
     (case recursiveKeys env pm of
        Inl e \<Rightarrow> Inl e
      | Inr rKeys \<Rightarrow>
     (case storeSet env w1 rKeys of
        Inl e \<Rightarrow> Inl e
      | Inr ((rNode, rCid), w2) \<Rightarrow>
     (case dagPut env w2 (DAGNode [] []) of
        Inl e \<Rightarrow> Inl e
      | Inr (_, w3) \<Rightarrow>
     (let dLink = DAGLink direct (nodeSize env dNode) dCid;
          rLink = DAGLink recursive (nodeSize env rNode) rCid;
          rootNode = DAGNode [] [dLink, rLink]
      in case dagPut env w3 rootNode of
           Inl e \<Rightarrow> Inl e
         | Inr (rootCid, w4) \<Rightarrow> datastorePut env w4 PIN_DS_KEY rootCid))))))"

text \<open>
  \<^verbatim>\<open>load\<close>, with the manager after the call, also when it throws. The bytes under
  the pin-root key are a CID, and so are the keys that \<^verbatim>\<open>loadSet\<close> returns. The two
  \<^verbatim>\<open>loadSet\<close> calls run under \<^verbatim>\<open>Promise.all\<close>, which rejects with the first
  rejection: when both calls reject, the repository says which comes first.
\<close>

definition load :: "env \<Rightarrow> world \<Rightarrow> pinManager \<Rightarrow> (error + unit) \<times> pinManager" where
  "load env w pm =
     (case datastoreHas w PIN_DS_KEY of
        Inl e \<Rightarrow> (Inl e, pm)
      | Inr has \<Rightarrow>
      if \<not> has then (Inr (), pm)
      else
        (case datastoreGet w PIN_DS_KEY of
           Inl e \<Rightarrow> (Inl e, pm)
         | Inr mh \<Rightarrow>
        (case dagGet w mh False of
           Inl e \<Rightarrow> (Inl e, pm)
         | Inr pinRoot \<Rightarrow>
        (case loadSet env w pinRoot recursive of
           Inl er \<Rightarrow>
             (case loadSet env w pinRoot direct of
                Inl ed \<Rightarrow> (Inl (if directRejectsFirst w then ed else er), pm)
              | Inr dKeys \<Rightarrow> (Inl er, pm))
         | Inr rKeys \<Rightarrow>
        (case loadSet env w pinRoot direct of
           Inl ed \<Rightarrow> (Inl ed, pm)
         | Inr dKeys \<Rightarrow>
             (let pm1 = pm\<lparr>directPins := newSet (map (cidToString env) dKeys)\<rparr>;
                  pm2 = pm1\<lparr>recursivePins := newSet (map (cidToString env) rKeys)\<rparr>
              in (Inr (), pm2)))))))"

subsection \<open>The descendant test of the pin-set codec\<close>

text \<open>
  Modelled from the spec: \<^verbatim>\<open>hasDescendant\<close> of \<^verbatim>\<open>./pin-set\<close>, which is not among
  the sources. The spec lets it walk the children of the root: the candidate is looked for
  among the links below the root, which is fetched first; a child that is no dag-pb node
  has no links to follow.
\<close>

partial_function (option) searchChildren ::
  "world \<Rightarrow> cid \<Rightarrow> cid list \<Rightarrow> (error + bool) option" where
  "searchChildren w descendant queue =
     (case queue of
        [] \<Rightarrow> Some (Inr False)
      | c # rest \<Rightarrow>
          if c = descendant then Some (Inr True)
          else
            (case dag w c of
               Inl e \<Rightarrow> Some (Inl e)
             | Inr (PBNode n) \<Rightarrow> searchChildren w descendant (rest @ map Hash (Links n))
             | Inr (OtherNode _) \<Rightarrow> searchChildren w descendant rest))"

definition hasDescendantSpec :: "world \<Rightarrow> cid \<Rightarrow> cid \<Rightarrow> (error + bool) option" where
  "hasDescendantSpec w parent descendant =
     (case dag w parent of
        Inl e \<Rightarrow> Some (Inl e)
      | Inr (PBNode n) \<Rightarrow> searchChildren w descendant (map Hash (Links n))
      | Inr (OtherNode _) \<Rightarrow> Some (Inr False))"

subsection \<open>Reachability and the contracts of the collaborators\<close>

text \<open>
  The links the walk follows from a CID: those of the node that \<^verbatim>\<open>dag.get\<close> returns
  for it, none when the fetch or the link extraction throws.
\<close>

definition taskChildren :: "env \<Rightarrow> world \<Rightarrow> bool \<Rightarrow> cid \<Rightarrow> cid list" where
  "taskChildren env w preload c =
     (case dagGet w c preload of
        Inl e \<Rightarrow> []
      | Inr node \<Rightarrow> (case walkLinks env c node of Inl e \<Rightarrow> [] | Inr children \<Rightarrow> children))"

definition dagEdges :: "env \<Rightarrow> world \<Rightarrow> bool \<Rightarrow> (cid \<times> cid) set" where
  "dagEdges env w preload = {(c, c'). c' \<in> set (taskChildren env w preload c)}"

text \<open>The CIDs reachable from one of the roots, the roots included.\<close>

definition reachable :: "env \<Rightarrow> world \<Rightarrow> bool \<Rightarrow> cid list \<Rightarrow> cid set" where
  "reachable env w preload roots = (dagEdges env w preload)\<^sup>* `` set roots"

definition fetched :: "world \<Rightarrow> bool \<Rightarrow> cid \<Rightarrow> bool" where
  "fetched w preload c = (case dagGet w c preload of Inl e \<Rightarrow> False | Inr node \<Rightarrow> True)"

text \<open>
  A Merkle DAG has no cycle, and a node has finitely many links: following links downwards
  always ends.
\<close>

definition acyclicDag :: "env \<Rightarrow> world \<Rightarrow> bool \<Rightarrow> bool" where
  "acyclicDag env w preload = wf ((dagEdges env w preload)\<inverse>)"

text \<open>\<open>preserves w w'\<close>: every block that \<^verbatim>\<open>dag.get\<close> finds in \<open>w\<close> it finds in \<open>w'\<close>.\<close>

definition preserves :: "world \<Rightarrow> world \<Rightarrow> bool" where
  "preserves w w' = (\<forall>c v. dag w c = Inr v \<longrightarrow> dag w' c = Inr v)"

text \<open>
  The contract of the DAG service: a node that was put is found under the CID that
  \<^verbatim>\<open>put\<close> returned, and no other block is lost.
\<close>

definition dagServiceContract :: "env \<Rightarrow> bool" where
  "dagServiceContract env =
     (\<forall>w n c w'. dagPut env w n = Inr (c, w') \<longrightarrow> dag w' c = Inr (PBNode n) \<and> preserves w w')"

text \<open>
  The contract of the datastore: a key that was put is there and reads as what was put,
  and no block of the DAG service is lost.
\<close>

definition datastoreContract :: "env \<Rightarrow> bool" where
  "datastoreContract env =
     (\<forall>w k v w'. datastorePut env w k v = Inr w' \<longrightarrow>
        datastoreHas w' k = Inr True \<and> datastoreGet w' k = Inr v \<and> preserves w w')"

text \<open>
  The round trip of the pin-set codec: \<^verbatim>\<open>storeSet\<close> loses no block, and in any later
  state of the repository that lost none, \<^verbatim>\<open>loadSet\<close> on a root whose first link of
  the given name points to the stored set returns the stored keys, as a set.
\<close>

definition codecRoundTrip :: "env \<Rightarrow> bool" where
  "codecRoundTrip env =
     (\<forall>w keys node c w1. storeSet env w keys = Inr ((node, c), w1) \<longrightarrow>
        preserves w w1 \<and>
        (\<forall>w2 root name l.
           preserves w1 w2 \<and> find (\<lambda>l. Name l = name) (Links root) = Some l \<and> Hash l = c \<longrightarrow>
           (\<exists>ks. loadSet env w2 (PBNode root) name = Inr ks \<and> set ks = set keys)))"

text \<open>
  The CID library on the keys of a set: a key that parses gives a CID whose canonical
  string parses back to it.
\<close>

definition parseStable :: "env \<Rightarrow> string list \<Rightarrow> bool" where
  "parseStable env keys =
     (\<forall>k c. k \<in> set keys \<and> newCID env k = Inr c \<longrightarrow> newCID env (cidToString env c) = Inr c)"

subsection \<open>A small repository\<close>

text \<open>
  The scenario of the specification: the DAG \<open>A \<rightarrow> [B, C]\<close>, \<open>B \<rightarrow> [D]\<close> with \<open>A\<close> pinned
  recursively, on a CID library whose canonical string is the digest, a DAG service that
  hashes a node to the text of its data and links, and a pin-set codec that stores a set
  as the links of one node.
\<close>

definition cidA :: cid where "cidA = CID 0 ''dag-pb'' ''A''"

definition cidB :: cid where "cidB = CID 0 ''dag-pb'' ''B''"

definition cidC :: cid where "cidC = CID 0 ''dag-pb'' ''C''"

definition cidD :: cid where "cidD = CID 0 ''dag-pb'' ''D''"

definition notFound :: error where
  "notFound = Error ''Not Found'' (Some ''ERR_NOT_FOUND'')"

definition exampleDag :: "cid \<Rightarrow> error + ipld" where
  "exampleDag c =
     (if c = cidA then Inr (PBNode (DAGNode [] [DAGLink ''b'' 0 cidB, DAGLink ''c'' 0 cidC]))
      else if c = cidB then Inr (PBNode (DAGNode [] [DAGLink ''d'' 0 cidD]))
      else if c = cidC \<or> c = cidD then Inr (PBNode (DAGNode [] []))
      else Inl notFound)"

definition exampleWorld :: world where
  "exampleWorld =
     \<lparr>dag = exampleDag, datastoreHas = (\<lambda>_. Inr False), datastoreGet = (\<lambda>_. Inl notFound),
      settlesNext = (\<lambda>_. 0), directRejectsFirst = False\<rparr>"

text \<open>The same repository when the block of \<open>B\<close> cannot be fetched.\<close>

definition brokenWorld :: world where
  "brokenWorld = exampleWorld\<lparr>dag := exampleDag(cidB := Inl notFound)\<rparr>"

definition examplePut :: "world \<Rightarrow> dagnode \<Rightarrow> error + (cid \<times> world)" where
  "examplePut w n =
     (let c = CID 0 ''dag-pb''
                (''#'' @ Data n @ concat (map (\<lambda>l. Name l @ '':'' @ digest (Hash l)) (Links n))) in
      case dag w c of
        Inr v \<Rightarrow> if v = PBNode n then Inr (c, w) else Inl (Error ''collision'' None)
      | Inl _ \<Rightarrow> Inr (c, w\<lparr>dag := (dag w)(c := Inr (PBNode n))\<rparr>))"

definition exampleDatastorePut :: "world \<Rightarrow> string \<Rightarrow> cid \<Rightarrow> error + world" where
  "exampleDatastorePut w k v =
     Inr (w\<lparr>datastoreHas := (datastoreHas w)(k := Inr True),
            datastoreGet := (datastoreGet w)(k := Inr v)\<rparr>)"

definition exampleStoreSet ::
  "world \<Rightarrow> cid list \<Rightarrow> error + ((dagnode \<times> cid) \<times> world)" where
  "exampleStoreSet w keys =
     (let n = DAGNode [] (map (DAGLink [] 0) keys) in
      case examplePut w n of Inl e \<Rightarrow> Inl e | Inr (c, w') \<Rightarrow> Inr ((n, c), w'))"

definition exampleLoadSet :: "world \<Rightarrow> ipld \<Rightarrow> string \<Rightarrow> error + cid list" where
  "exampleLoadSet w rootNode name =
     (case rootNode of
        OtherNode _ \<Rightarrow> Inl (Error ''decode'' None)
      | PBNode root \<Rightarrow>
          (case find (\<lambda>l. Name l = name) (Links root) of
             None \<Rightarrow> Inl (Error (''No link found with name '' @ name) None)
           | Some l \<Rightarrow>
               (case dag w (Hash l) of
                  Inl e \<Rightarrow> Inl e
                | Inr (OtherNode _) \<Rightarrow> Inl (Error ''decode'' None)
                | Inr (PBNode n) \<Rightarrow> Inr (map Hash (Links n)))))"

definition exampleEnv :: env where
  "exampleEnv =
     \<lparr>cidToString = digest,
      newCID = (\<lambda>s. if s = [] then Inl (Error ''invalid cid'' None)
                    else Inr (CID 0 ''dag-pb'' s)),
      dagCborLinks = (\<lambda>_. []),
      nodeSize = (\<lambda>n. length (Data n)),
      dagPut = examplePut,
      datastorePut = exampleDatastorePut,
      storeSet = exampleStoreSet,
      loadSet = exampleLoadSet,
      hasDescendant = hasDescendantSpec\<rparr>"

definition examplePins :: pinManager where
  "examplePins = \<lparr>directPins = [], recursivePins = [''A'']\<rparr>"

text \<open>A manager with direct pins as well.\<close>

definition exampleBothPins :: pinManager where
  "exampleBothPins = \<lparr>directPins = [''C'', ''D''], recursivePins = [''A'']\<rparr>"

text \<open>
  Four repositories on which \<^verbatim>\<open>load\<close> fails: the datastore cannot be asked for the
  pin-root key, the key is there and cannot be read, it names a block that is not there, it
  names a node without the two links.
\<close>

definition readFailed :: error where
  "readFailed = Error ''read failed'' None"

definition closedWorld :: world where
  "closedWorld = exampleWorld\<lparr>datastoreHas := (\<lambda>_. Inl readFailed)\<rparr>"

definition unreadableWorld :: world where
  "unreadableWorld =
     exampleWorld\<lparr>datastoreHas := (\<lambda>_. Inr True), datastoreGet := (\<lambda>_. Inl readFailed)\<rparr>"

definition danglingWorld :: world where
  "danglingWorld =
     exampleWorld\<lparr>datastoreHas := (\<lambda>_. Inr True),
                   datastoreGet := (\<lambda>_. Inr (CID 0 ''dag-pb'' ''X''))\<rparr>"

definition undecodableWorld :: world where
  "undecodableWorld =
     exampleWorld\<lparr>datastoreHas := (\<lambda>_. Inr True), datastoreGet := (\<lambda>_. Inr cidC)\<rparr>"

text \<open>
  The same repository on which the direct \<^verbatim>\<open>loadSet\<close> rejects first, and two on
  which one of the two links is missing from the root.
\<close>

definition undecodableDirectFirstWorld :: world where
  "undecodableDirectFirstWorld = undecodableWorld\<lparr>directRejectsFirst := True\<rparr>"

definition directOnlyWorld :: world where
  "directOnlyWorld =
     exampleWorld
       \<lparr>dag := exampleDag
          (CID 0 ''dag-pb'' ''root'' :=
             Inr (PBNode (DAGNode [] [DAGLink direct 0 cidC]))),
        datastoreHas := (\<lambda>_. Inr True),
        datastoreGet := (\<lambda>_. Inr (CID 0 ''dag-pb'' ''root''))\<rparr>"

definition recursiveOnlyWorld :: world where
  "recursiveOnlyWorld =
     exampleWorld
       \<lparr>dag := exampleDag
          (CID 0 ''dag-pb'' ''root'' :=
             Inr (PBNode (DAGNode [] [DAGLink recursive 0 cidC]))),
        datastoreHas := (\<lambda>_. Inr True),
        datastoreGet := (\<lambda>_. Inr (CID 0 ''dag-pb'' ''root''))\<rparr>"




text \<open>A repository that holds a stored pin root with the sets \<open>{C}\<close> and \<open>{A}\<close>.\<close>

definition storedWorld :: world where
  "storedWorld =
     exampleWorld
       \<lparr>dag := exampleDag
          (CID 0 ''dag-pb'' ''root'' :=
             Inr (PBNode (DAGNode [] [DAGLink direct 0 (CID 0 ''dag-pb'' ''d''),
                                      DAGLink recursive 0 (CID 0 ''dag-pb'' ''r'')])),
           CID 0 ''dag-pb'' ''d'' := Inr (PBNode (DAGNode [] [DAGLink [] 0 cidC])),
           CID 0 ''dag-pb'' ''r'' := Inr (PBNode (DAGNode [] [DAGLink [] 0 cidA]))),
        datastoreHas := (\<lambda>_. Inr True),
        datastoreGet := (\<lambda>_. Inr (CID 0 ''dag-pb'' ''root''))\<rparr>"

section \<open>Properties\<close>

lemmas pinTypes_defs = direct_def recursive_def indirect_def all_def

lemmas cid_defs = cidA_def cidB_def cidC_def cidD_def

lemmas example_defs =
  exampleEnv_def exampleWorld_def exampleDag_def examplePins_def brokenWorld_def
  cid_defs notFound_def

subsection \<open>Membership queries\<close>

text \<open>
  C2. For every CID, \<^verbatim>\<open>isPinnedWithType(c, 'recursive')\<close> is pinned exactly when the
  canonical string of the CID is in \<^verbatim>\<open>recursivePins\<close>, and
  \<^verbatim>\<open>isPinnedWithType(c, 'direct')\<close> exactly when it is in \<^verbatim>\<open>directPins\<close>; the key
  returned is the canonical string, and the reason of a positive answer is the name of the
  pin type (no reason comes with a negative one).
\<close>

theorem isPinnedWithType_recursive_direct:
  "isPinnedWithType env w pm c recursive =
     Some (Inr \<lparr>key = cidToString env c,
                pinned = setHas (recursivePins pm) (cidToString env c),
                reason = (if setHas (recursivePins pm) (cidToString env c)
                          then Some (PinType ''recursive'') else None)\<rparr>)
   \<and> isPinnedWithType env w pm c direct =
     Some (Inr \<lparr>key = cidToString env c,
                pinned = setHas (directPins pm) (cidToString env c),
                reason = (if setHas (directPins pm) (cidToString env c)
                          then Some (PinType ''direct'') else None)\<rparr>)"
  by (simp add: isPinnedWithType_def pinTypes_defs)

theorem isPinnedWithType_recursive_direct_witness:
  "isPinnedWithType exampleEnv exampleWorld examplePins cidA ''recursive'' =
     Some (Inr \<lparr>key = ''A'', pinned = True, reason = Some (PinType ''recursive'')\<rparr>)
   \<and> isPinnedWithType exampleEnv exampleWorld examplePins cidA ''direct'' =
     Some (Inr \<lparr>key = ''A'', pinned = False, reason = None\<rparr>)"
  using isPinnedWithType_recursive_direct [of exampleEnv exampleWorld examplePins cidA]
  by (simp add: pinTypes_defs setHas_def example_defs)

text \<open>
  C3. A CID whose canonical string is in \<^verbatim>\<open>recursivePins\<close> is answered as
  \<^verbatim>\<open>recursive\<close> by a query of type \<^verbatim>\<open>all\<close>, whatever the DAG and the descendant
  test are: the answer is given before the recursive roots are scanned, so also when the
  CID is below another recursive root.
\<close>

theorem isPinnedWithType_all_recursive_first:
  "setHas (recursivePins pm) (cidToString env c) \<Longrightarrow>
   isPinnedWithType env w pm c all =
     Some (Inr \<lparr>key = cidToString env c, pinned = True,
                reason = Some (PinType ''recursive'')\<rparr>)"
  by (simp add: isPinnedWithType_def pinTypes_defs)

theorem isPinnedWithType_all_recursive_first_witness:
  "hasDescendantSpec exampleWorld cidA cidB = Some (Inr True)
   \<and> isPinnedWithType exampleEnv exampleWorld
       \<lparr>directPins = [], recursivePins = [''A'', ''B'']\<rparr> cidB ''all'' =
     Some (Inr \<lparr>key = ''B'', pinned = True, reason = Some (PinType ''recursive'')\<rparr>)"
  using isPinnedWithType_all_recursive_first
    [of "\<lparr>directPins = [], recursivePins = [''A'', ''B'']\<rparr>" exampleEnv cidB exampleWorld]
  by (simp add: pinTypes_defs setHas_def hasDescendantSpec_def searchChildren.simps
      example_defs)

text \<open>
  C10. A CID whose canonical string is in both sets is answered by a query of type
  \<^verbatim>\<open>all\<close> with the reason \<^verbatim>\<open>recursive\<close>, not \<^verbatim>\<open>direct\<close>.
\<close>

theorem isPinnedWithType_all_recursive_before_direct:
  "setHas (recursivePins pm) (cidToString env c) \<and> setHas (directPins pm) (cidToString env c)
   \<Longrightarrow> \<exists>info. isPinnedWithType env w pm c all = Some (Inr info)
          \<and> pinned info \<and> reason info = Some (PinType ''recursive'')
          \<and> reason info \<noteq> Some (PinType ''direct'')"
  by (simp add: isPinnedWithType_def pinTypes_defs)

theorem isPinnedWithType_all_recursive_before_direct_witness:
  "\<exists>info. isPinnedWithType exampleEnv exampleWorld
            \<lparr>directPins = [''C'', ''A''], recursivePins = [''A'']\<rparr> cidA ''all''
          = Some (Inr info)
        \<and> pinned info \<and> reason info = Some (PinType ''recursive'')
        \<and> reason info \<noteq> Some (PinType ''direct'')"
  using isPinnedWithType_all_recursive_before_direct
    [of "\<lparr>directPins = [''C'', ''A''], recursivePins = [''A'']\<rparr>" exampleEnv cidA exampleWorld]
  by (simp add: pinTypes_defs setHas_def example_defs)

text \<open>
  C1, at the scenario of the specification. \<open>D\<close> is in neither set and is a descendant
  of the recursive root \<open>A\<close>, which the descendant test confirms when it is asked about
  \<open>D\<close>. The scan asks it about the root itself, \<^verbatim>\<open>hasDescendant(childKey, childCID)\<close>,
  and the query for \<open>D\<close> is answered as not pinned, with no reason, for the type
  \<^verbatim>\<open>all\<close> and for the type \<^verbatim>\<open>indirect\<close>. For every repository, a query of type
  \<^verbatim>\<open>indirect\<close> gives the same \<^verbatim>\<open>pinned\<close> and \<^verbatim>\<open>reason\<close> whatever CID is
  asked for.
\<close>

theorem isPinnedWithType_scenario_D:
  "\<not> setHas (recursivePins examplePins) (cidToString exampleEnv cidD)
   \<and> \<not> setHas (directPins examplePins) (cidToString exampleEnv cidD)
   \<and> hasDescendant exampleEnv exampleWorld cidA cidD = Some (Inr True)
   \<and> isPinnedWithType exampleEnv exampleWorld examplePins cidD all =
       Some (Inr \<lparr>key = ''D'', pinned = False, reason = None\<rparr>)
   \<and> isPinnedWithType exampleEnv exampleWorld examplePins cidD indirect =
       Some (Inr \<lparr>key = ''D'', pinned = False, reason = None\<rparr>)
   \<and> map_option (map_sum id (\<lambda>info. (pinned info, reason info)))
         (isPinnedWithType env w pm c indirect) =
       map_option (map_sum id (\<lambda>info. (pinned info, reason info)))
         (isPinnedWithType env w pm c' indirect)"
proof -
  have "map_option (map_sum id (\<lambda>info. (pinned info, reason info)))
          (isPinnedWithType env w pm c indirect) =
        map_option (map_sum id (\<lambda>info. (pinned info, reason info)))
          (isPinnedWithType env w pm c' indirect)"
    by (simp add: isPinnedWithType_def pinTypes_defs split: sum.splits option.splits)
  then show ?thesis
    by (simp add: isPinnedWithType_def recursiveKeys_def setHas_def pinTypes_defs
        scanRoots.simps IS_PINNED_WITH_TYPE_CONCURRENCY_LIMIT_def
        hasDescendantSpec_def searchChildren.simps example_defs)
qed

subsection \<open>Type validation\<close>




subsection \<open>The DAG walk\<close>

lemma reachable_Nil: "reachable env w p [] = {}"
  by (simp add: reachable_def)

lemma reachable_Cons:
  "reachable env w p (c # rest) =
     insert c (reachable env w p (taskChildren env w p c)) \<union> reachable env w p rest"
proof -
  have "(dagEdges env w p)\<^sup>* `` {c} = insert c ((dagEdges env w p)\<^sup>* `` set (taskChildren env w p c))"
  proof (intro set_eqI iffI)
    fix x assume "x \<in> (dagEdges env w p)\<^sup>* `` {c}"
    then have "(c, x) \<in> (dagEdges env w p)\<^sup>*" by simp
    then show "x \<in> insert c ((dagEdges env w p)\<^sup>* `` set (taskChildren env w p c))"
      by (cases rule: converse_rtranclE) (auto simp: dagEdges_def)
  next
    fix x assume "x \<in> insert c ((dagEdges env w p)\<^sup>* `` set (taskChildren env w p c))"
    then show "x \<in> (dagEdges env w p)\<^sup>* `` {c}"
      by (auto simp: dagEdges_def intro: converse_rtrancl_into_rtrancl)
  qed
  then show ?thesis
    by (auto simp: reachable_def)
qed

lemma reachable_append:
  "reachable env w p (xs @ ys) = reachable env w p xs \<union> reachable env w p ys"
  by (auto simp: reachable_def)


lemma runQueue_Nil: "runQueue env w p onCid [] s = Some s"
  by (subst runQueue.simps) simp

lemma runQueue_Cons:
  "runQueue env w p onCid (c # rest) s =
     (if fetched w p c then runQueue env w p onCid (rest @ taskChildren env w p c) (onCid c s)
      else runQueue env w p onCid rest s)"
  by (subst runQueue.simps) (simp add: fetched_def taskChildren_def split: sum.splits)

lemma taskChildren_unfetched: "\<not> fetched w p c \<Longrightarrow> taskChildren env w p c = []"
  by (simp add: fetched_def taskChildren_def split: sum.splits)

lemma runQueue_total:
  assumes "acyclicDag env w p"
  shows "\<exists>vs. runQueue env w p onCid q s = Some (foldl (\<lambda>s c. onCid c s) s vs)
              \<and> set vs = {c \<in> reachable env w p q. fetched w p c}"
proof -
  have "wf (mult ((dagEdges env w p)\<inverse>))"
    using assms by (simp add: acyclicDag_def wf_mult)
  then show ?thesis
  proof (induction "mset q" arbitrary: q s rule: wf_induct_rule)
    case less
    show ?case
    proof (cases q)
      case Nil
      have "runQueue env w p onCid q s = Some (foldl (\<lambda>s c. onCid c s) s [])"
        by (simp add: Nil runQueue_Nil)
      moreover have "set [] = {c \<in> reachable env w p q. fetched w p c}"
        by (simp add: Nil reachable_Nil)
      ultimately show ?thesis by blast
    next
      case (Cons c rest)
      let ?q' = "rest @ taskChildren env w p c"
      have "(mset rest + mset (taskChildren env w p c), mset rest + {#c#})
              \<in> mult ((dagEdges env w p)\<inverse>)"
        by (rule one_step_implies_mult) (simp_all add: dagEdges_def)
      then have smaller: "(mset ?q', mset q) \<in> mult ((dagEdges env w p)\<inverse>)"
        by (simp add: Cons)
      show ?thesis
      proof (cases "fetched w p c")
        case False
        then have ch: "taskChildren env w p c = []"
          by (rule taskChildren_unfetched)
        from smaller ch have "(mset rest, mset q) \<in> mult ((dagEdges env w p)\<inverse>)"
          by simp
        from less [OF this, of s]
        obtain vs where vs: "runQueue env w p onCid rest s = Some (foldl (\<lambda>s c. onCid c s) s vs)"
          "set vs = {c \<in> reachable env w p rest. fetched w p c}"
          by blast
        have "runQueue env w p onCid q s = Some (foldl (\<lambda>s c. onCid c s) s vs)"
          using vs(1) by (simp add: Cons runQueue_Cons False)
        moreover have "set vs = {x \<in> reachable env w p q. fetched w p x}"
          using False vs(2) by (auto simp: Cons reachable_Cons ch reachable_Nil)
        ultimately show ?thesis by blast
      next
        case True
        from less [OF smaller, of "onCid c s"]
        obtain vs where vs: "runQueue env w p onCid ?q' (onCid c s)
              = Some (foldl (\<lambda>s c. onCid c s) (onCid c s) vs)"
          "set vs = {x \<in> reachable env w p ?q'. fetched w p x}"
          by blast
        have "runQueue env w p onCid q s = runQueue env w p onCid ?q' (onCid c s)"
          by (simp add: Cons runQueue_Cons True)
        then have "runQueue env w p onCid q s = Some (foldl (\<lambda>s c. onCid c s) s (c # vs))"
          using vs by simp
        moreover have "set (c # vs) = {x \<in> reachable env w p q. fetched w p x}"
          using True vs(2) by (auto simp: Cons reachable_Cons reachable_append)
        ultimately show ?thesis by blast
      qed
    qed
  qed
qed

lemma runQueue_noop:
  assumes "runQueue env w p onCid q s = Some s'" and noop: "\<forall>c s. onCid c s = s"
  shows "s' = s"
proof -
  have "(\<forall>c s. onCid c s = s) \<longrightarrow> s' = s"
  proof (rule runQueue.raw_induct
      [where P = "\<lambda>env w p onCid q s s'. (\<forall>c s. onCid c s = s) \<longrightarrow> s' = s", OF _ assms(1)])
    fix rq :: "env \<Rightarrow> world \<Rightarrow> bool \<Rightarrow> (cid \<Rightarrow> 'a \<Rightarrow> 'a) \<Rightarrow> cid list \<Rightarrow> 'a \<Rightarrow> 'a option"
    fix env w p onCid q s y
    assume IH: "\<And>env w p onCid q s y. rq env w p onCid q s = Some y \<Longrightarrow> (\<forall>c s. onCid c s = s) \<longrightarrow> y = s"
      and step: "(case q of
        [] \<Rightarrow> Some s
      | c # rest \<Rightarrow>
          (case dagGet w c p of
             Inl e \<Rightarrow> rq env w p onCid rest s
           | Inr node \<Rightarrow>
               (case walkLinks env c node of
                  Inl e \<Rightarrow> rq env w p onCid rest (onCid c s)
                | Inr children \<Rightarrow> rq env w p onCid (rest @ children) (onCid c s)))) = Some y"
    show "(\<forall>c s. onCid c s = s) \<longrightarrow> y = s"
      using step IH by (auto split: list.splits sum.splits)
  qed
  with noop show ?thesis by blast
qed

lemma example_taskChildren:
  "taskChildren exampleEnv exampleWorld p c =
     (if c = cidA then [cidB, cidC] else if c = cidB then [cidD] else [])"
  by (simp add: taskChildren_def dagGet_def walkLinks_def example_defs)

lemma example_acyclic: "acyclicDag exampleEnv exampleWorld p"
proof -
  let ?rank = "\<lambda>c. if c = cidA then 2 else if c = cidB then 1 else (0::nat)"
  have "(dagEdges exampleEnv exampleWorld p)\<inverse> \<subseteq> measure ?rank"
    by (auto simp: dagEdges_def example_taskChildren cid_defs split: if_splits)
  then show ?thesis
    unfolding acyclicDag_def by (rule wf_subset [OF wf_measure])
qed

lemma example_reachable:
  "reachable exampleEnv exampleWorld p [cidA] = {cidA, cidB, cidC, cidD}"
  by (auto simp: reachable_Cons reachable_Nil example_taskChildren cid_defs)

lemma example_fetched:
  "fetched exampleWorld p cidA" "fetched exampleWorld p cidB"
  "fetched exampleWorld p cidC" "fetched exampleWorld p cidD"
  by (simp_all add: fetched_def dagGet_def example_defs)

text \<open>
  C9. \<^verbatim>\<open>fetchCompleteDag\<close> leaves the manager and the repository as they were, for
  every CID or string and every \<^verbatim>\<open>preload\<close>: whenever it returns, normally or with
  the error of \<^verbatim>\<open>new CID\<close>, \<^verbatim>\<open>directPins\<close>, \<^verbatim>\<open>recursivePins\<close> and the
  datastore are unchanged.
\<close>

theorem fetchCompleteDag_frame:
  "fetchCompleteDag env w pm cid preload = Some (r, pm', w') \<Longrightarrow> pm' = pm \<and> w' = w"
  by (auto simp: fetchCompleteDag_def walkDag_def split: sum.splits option.splits
      dest: runQueue_noop)

theorem fetchCompleteDag_frame_witness:
  "\<exists>r. fetchCompleteDag exampleEnv exampleWorld examplePins (Inl cidA) None =
          Some (r, examplePins, exampleWorld)"
proof -
  have "\<exists>s'. runQueue exampleEnv exampleWorld False (\<lambda>_ s. s) [cidA] (examplePins, exampleWorld)
          = Some s'"
    using runQueue_total [OF example_acyclic, of False "\<lambda>_ s. s" "[cidA]"
        "(examplePins, exampleWorld)"] by (elim exE conjE) (rule exI)
  then obtain pm' w' where
    run: "fetchCompleteDag exampleEnv exampleWorld examplePins (Inl cidA) None =
            Some (Inr (), pm', w')"
    by (auto simp: fetchCompleteDag_def walkDag_def)
  from fetchCompleteDag_frame [OF run] run show ?thesis by blast
qed

text \<open>
  C7, at a failing fetch. A walk that starts from a CID never ends with an error. In the
  scenario's DAG with the block of \<open>B\<close> missing, the walk from \<open>A\<close> completes
  normally, having visited \<open>A\<close> and \<open>C\<close>; \<^verbatim>\<open>fetchCompleteDag\<close> reports success and
  \<^verbatim>\<open>getIndirectKeys\<close> returns \<open>C\<close> alone, without \<open>B\<close> and \<open>D\<close> and without an
  error.
\<close>

theorem walk_skips_failed_fetch:
  "walkDag env w (Inl c) preload onCid s \<noteq> Some (Inl e, s')
   \<and> dagGet brokenWorld cidB False = Inl notFound
   \<and> walkDag exampleEnv brokenWorld (Inl cidA) None (\<lambda>c visited. visited @ [c]) [] =
       Some (Inr (), [cidA, cidC])
   \<and> fetchCompleteDag exampleEnv brokenWorld examplePins (Inl cidA) None =
       Some (Inr (), examplePins, brokenWorld)
   \<and> getIndirectKeys exampleEnv brokenWorld examplePins None = Some (Inr [''C''])"
proof -
  have "walkDag env w (Inl c) preload onCid s \<noteq> Some (Inl e, s')"
    by (simp add: walkDag_def split: option.splits)
  moreover have "dagGet brokenWorld cidB False = Inl notFound
     \<and> walkDag exampleEnv brokenWorld (Inl cidA) None (\<lambda>c visited. visited @ [c]) [] =
         Some (Inr (), [cidA, cidC])
     \<and> fetchCompleteDag exampleEnv brokenWorld examplePins (Inl cidA) None =
         Some (Inr (), examplePins, brokenWorld)
     \<and> getIndirectKeys exampleEnv brokenWorld examplePins None = Some (Inr [''C''])"
    by (simp add: fetchCompleteDag_def getIndirectKeys_def recursiveKeys_def walkDag_def
        runQueue.simps dagGet_def walkLinks_def indirectOnCid_def setHas_def setAdd_def
        exampleEnv_def exampleWorld_def exampleDag_def examplePins_def brokenWorld_def cid_defs
        notFound_def)
  ultimately show ?thesis by blast
qed

subsection \<open>Indirect keys\<close>

lemma foldl_indirectOnCid:
  "set (foldl (\<lambda>s c. indirectOnCid env pm c s) ik vs) =
     set ik \<union> (cidToString env ` set vs - set (recursivePins pm))"
  by (induction vs arbitrary: ik) (auto simp: indirectOnCid_def setHas_def setAdd_def Let_def)

lemma foldl_indirectOnCid_distinct:
  "distinct ik \<Longrightarrow> distinct (foldl (\<lambda>s c. indirectOnCid env pm c s) ik vs)"
  by (induction vs arbitrary: ik) (auto simp: indirectOnCid_def setHas_def setAdd_def Let_def)

lemma indirectLoop_total:
  assumes "acyclicDag env w (case preload of None \<Rightarrow> False | Some b \<Rightarrow> b)"
    and "distinct ik"
  shows "\<exists>ks. indirectLoop env w pm preload roots ik = Some (Inr ks) \<and> distinct ks
            \<and> set ks = set ik \<union>
                (cidToString env `
                   {c \<in> reachable env w (case preload of None \<Rightarrow> False | Some b \<Rightarrow> b) roots.
                      fetched w (case preload of None \<Rightarrow> False | Some b \<Rightarrow> b) c}
                 - set (recursivePins pm))"
  using assms(2)
proof (induction roots arbitrary: ik)
  case Nil
  then show ?case by (simp add: reachable_Nil)
next
  case (Cons mh rest)
  let ?p = "case preload of None \<Rightarrow> False | Some b \<Rightarrow> b"
  obtain vs where vs:
    "runQueue env w ?p (indirectOnCid env pm) [mh] ik
       = Some (foldl (\<lambda>s c. indirectOnCid env pm c s) ik vs)"
    "set vs = {c \<in> reachable env w ?p [mh]. fetched w ?p c}"
    using runQueue_total [OF assms(1), of "indirectOnCid env pm" "[mh]" ik] by blast
  let ?ik' = "foldl (\<lambda>s c. indirectOnCid env pm c s) ik vs"
  have step: "indirectLoop env w pm preload (mh # rest) ik = indirectLoop env w pm preload rest ?ik'"
    using vs(1) by (simp add: walkDag_def)
  have "distinct ?ik'"
    using Cons.prems by (rule foldl_indirectOnCid_distinct)
  from Cons.IH [OF this]
  obtain ks where ks: "indirectLoop env w pm preload rest ?ik' = Some (Inr ks)" "distinct ks"
    "set ks = set ?ik' \<union> (cidToString env ` {c \<in> reachable env w ?p rest. fetched w ?p c}
                 - set (recursivePins pm))"
    by blast
  have "reachable env w ?p (mh # rest) = reachable env w ?p [mh] \<union> reachable env w ?p rest"
    using reachable_append [of env w ?p "[mh]" rest] by simp
  then have "set ks = set ik \<union> (cidToString env ` {c \<in> reachable env w ?p (mh # rest). fetched w ?p c}
                 - set (recursivePins pm))"
    using ks(3) vs(2) by (auto simp: foldl_indirectOnCid)
  with step ks(1,2) show ?case by simp
qed

lemma broken_taskChildren:
  "taskChildren exampleEnv brokenWorld p c = (if c = cidA then [cidB, cidC] else [])"
  by (simp add: taskChildren_def dagGet_def walkLinks_def example_defs)

lemma broken_acyclic: "acyclicDag exampleEnv brokenWorld p"
proof -
  let ?rank = "\<lambda>c. if c = cidA then 1 else (0::nat)"
  have "(dagEdges exampleEnv brokenWorld p)\<inverse> \<subseteq> measure ?rank"
    by (auto simp: dagEdges_def broken_taskChildren cid_defs split: if_splits)
  then show ?thesis
    unfolding acyclicDag_def by (rule wf_subset [OF wf_measure])
qed

lemma broken_reachable:
  "reachable exampleEnv brokenWorld p [cidA] = {cidA, cidB, cidC}"
  by (auto simp: reachable_Cons reachable_Nil broken_taskChildren cid_defs)

lemma broken_fetched:
  "fetched brokenWorld p cidA" "\<not> fetched brokenWorld p cidB" "fetched brokenWorld p cidC"
  by (simp_all add: fetched_def dagGet_def example_defs)

text \<open>
  C4. When every recursive pin parses and the DAG is acyclic, \<^verbatim>\<open>getIndirectKeys\<close>
  returns, each once, the canonical strings of the CIDs that are reachable from some
  recursive root (by the links of dag-pb nodes and those dag-cbor-links finds), were
  fetched, and are not in \<^verbatim>\<open>recursivePins\<close>. So no string of \<^verbatim>\<open>recursivePins\<close>
  is among them, whether the fetches succeed or not; and when every reachable CID is
  fetched, the result is exactly the strings of the reachable CIDs that are not in
  \<^verbatim>\<open>recursivePins\<close>. A reachable CID whose fetch fails is left out without an error.
\<close>

theorem getIndirectKeys_reachable_fetched:
  assumes "recursiveKeys env pm = Inr roots"
    and "acyclicDag env w (case preload of None \<Rightarrow> False | Some b \<Rightarrow> b)"
  shows "\<exists>ks. getIndirectKeys env w pm preload = Some (Inr ks) \<and> distinct ks
           \<and> set ks \<inter> set (recursivePins pm) = {}
           \<and> set ks =
               cidToString env `
                 {c \<in> reachable env w (case preload of None \<Rightarrow> False | Some b \<Rightarrow> b) roots.
                    fetched w (case preload of None \<Rightarrow> False | Some b \<Rightarrow> b) c}
                 - set (recursivePins pm)
           \<and> ((\<forall>c \<in> reachable env w (case preload of None \<Rightarrow> False | Some b \<Rightarrow> b) roots.
                  fetched w (case preload of None \<Rightarrow> False | Some b \<Rightarrow> b) c)
                \<longrightarrow> set ks =
                      cidToString env `
                        reachable env w (case preload of None \<Rightarrow> False | Some b \<Rightarrow> b) roots
                      - set (recursivePins pm))"
proof -
  let ?p = "case preload of None \<Rightarrow> False | Some b \<Rightarrow> b"
  obtain ks where ks: "indirectLoop env w pm preload roots [] = Some (Inr ks)" "distinct ks"
    "set ks = set [] \<union> (cidToString env ` {c \<in> reachable env w ?p roots. fetched w ?p c}
                 - set (recursivePins pm))"
    using indirectLoop_total [OF assms(2), of "[]" pm roots] by auto
  have run: "getIndirectKeys env w pm preload = Some (Inr ks)"
    using ks(1) by (simp add: getIndirectKeys_def assms(1))
  have sets: "set ks = cidToString env ` {c \<in> reachable env w ?p roots. fetched w ?p c}
                 - set (recursivePins pm)"
    using ks(3) by simp
  then have disjoint: "set ks \<inter> set (recursivePins pm) = {}"
    by blast
  have exact: "set ks = cidToString env ` reachable env w ?p roots - set (recursivePins pm)"
    if "\<forall>c \<in> reachable env w ?p roots. fetched w ?p c"
  proof -
    from that have "{c \<in> reachable env w ?p roots. fetched w ?p c} = reachable env w ?p roots"
      by blast
    with sets show ?thesis by simp
  qed
  from run ks(2) disjoint sets exact show ?thesis by blast
qed

theorem getIndirectKeys_reachable_fetched_witness:
  "(\<exists>ks. getIndirectKeys exampleEnv exampleWorld examplePins None = Some (Inr ks)
         \<and> distinct ks \<and> set ks = {''B'', ''C'', ''D''})
   \<and> (\<exists>ks. getIndirectKeys exampleEnv brokenWorld examplePins None = Some (Inr ks)
         \<and> distinct ks \<and> set ks = {''C''})
   \<and> cidB \<in> reachable exampleEnv brokenWorld False [cidA]
   \<and> cidToString exampleEnv cidB \<notin> set (recursivePins examplePins)"
proof -
  have roots: "recursiveKeys exampleEnv examplePins = Inr [cidA]"
    by (simp add: recursiveKeys_def example_defs)
  have ok: "\<forall>c \<in> reachable exampleEnv exampleWorld (case None of None \<Rightarrow> False | Some b \<Rightarrow> b) [cidA].
           fetched exampleWorld (case None of None \<Rightarrow> False | Some b \<Rightarrow> b) c"
    by (simp add: example_reachable example_fetched)
  have strs: "cidToString exampleEnv ` {cidA, cidB, cidC, cidD} - set (recursivePins examplePins)
          = {''B'', ''C'', ''D''}"
    by (auto simp: example_defs)
  obtain ks where ks: "getIndirectKeys exampleEnv exampleWorld examplePins None = Some (Inr ks)"
    "distinct ks"
    and "(\<forall>c \<in> reachable exampleEnv exampleWorld (case None of None \<Rightarrow> False | Some b \<Rightarrow> b) [cidA].
           fetched exampleWorld (case None of None \<Rightarrow> False | Some b \<Rightarrow> b) c)
         \<longrightarrow> set ks = cidToString exampleEnv `
                reachable exampleEnv exampleWorld (case None of None \<Rightarrow> False | Some b \<Rightarrow> b) [cidA]
              - set (recursivePins examplePins)"
    using getIndirectKeys_reachable_fetched [OF roots example_acyclic] by blast
  with ok have "set ks = cidToString exampleEnv `
                reachable exampleEnv exampleWorld (case None of None \<Rightarrow> False | Some b \<Rightarrow> b) [cidA]
              - set (recursivePins examplePins)"
    by blast
  then have "set ks = {''B'', ''C'', ''D''}"
    unfolding option.case example_reachable strs .
  with ks have whole: "\<exists>ks. getIndirectKeys exampleEnv exampleWorld examplePins None
                           = Some (Inr ks) \<and> distinct ks \<and> set ks = {''B'', ''C'', ''D''}"
    by blast
  have fetchedSet: "{c \<in> {cidA, cidB, cidC}. fetched brokenWorld False c} = {cidA, cidC}"
    using broken_fetched [of False] by auto
  have strs': "cidToString exampleEnv ` {cidA, cidC} - set (recursivePins examplePins) = {''C''}"
    by (auto simp: example_defs)
  obtain ks' where ks': "getIndirectKeys exampleEnv brokenWorld examplePins None = Some (Inr ks')"
    "distinct ks'"
    "set ks' = cidToString exampleEnv `
                 {c \<in> reachable exampleEnv brokenWorld (case None of None \<Rightarrow> False | Some b \<Rightarrow> b) [cidA].
                    fetched brokenWorld (case None of None \<Rightarrow> False | Some b \<Rightarrow> b) c}
               - set (recursivePins examplePins)"
    using getIndirectKeys_reachable_fetched [OF roots broken_acyclic] by blast
  from ks'(3) have "set ks' = {''C''}"
    unfolding option.case broken_reachable fetchedSet strs' .
  with ks' have part: "\<exists>ks. getIndirectKeys exampleEnv brokenWorld examplePins None
                           = Some (Inr ks) \<and> distinct ks \<and> set ks = {''C''}"
    by blast
  have "cidB \<in> reachable exampleEnv brokenWorld False [cidA]"
    by (simp add: broken_reachable)
  moreover have "cidToString exampleEnv cidB \<notin> set (recursivePins examplePins)"
    by (simp add: example_defs)
  ultimately show ?thesis using whole part by blast
qed

subsection \<open>Persistence\<close>

lemma set_newSet: "set (newSet xs) = set xs"
proof -
  have "set (foldl setAdd acc xs) = set acc \<union> set xs" for acc :: "'a list"
    by (induction xs arbitrary: acc) (auto simp: setAdd_def)
  then show ?thesis by (simp add: newSet_def)
qed

lemma toKeys_map:
  "\<forall>k \<in> set ks. newCID env k = Inr (f k) \<Longrightarrow> toKeys env ks = Inr (map f ks)"
  by (induction ks) simp_all

lemma toKeys_Inr:
  "toKeys env ks = Inr cs \<Longrightarrow> set cs = {c. \<exists>k \<in> set ks. newCID env k = Inr c}"
  by (induction ks arbitrary: cs) (auto split: sum.splits)

lemma preserves_refl: "preserves w w"
  by (simp add: preserves_def)

lemma preserves_trans: "preserves w1 w2 \<Longrightarrow> preserves w2 w3 \<Longrightarrow> preserves w1 w3"
  by (simp add: preserves_def)

lemma reload_keys:
  assumes stable: "parseStable env pins" and parsed: "toKeys env pins = Inr cs"
    and loaded: "set loaded = set cs"
  shows "\<exists>cs'. toKeys env (newSet (map (cidToString env) loaded)) = Inr cs' \<and> set cs' = set cs"
proof -
  let ?f = "\<lambda>k. case newCID env k of Inr c \<Rightarrow> c | Inl e \<Rightarrow> undefined"
  have reparse: "newCID env (cidToString env c) = Inr c" if "c \<in> set cs" for c
    using that stable toKeys_Inr [OF parsed] by (auto simp: parseStable_def)
  have "\<forall>k \<in> set (newSet (map (cidToString env) loaded)). newCID env k = Inr (?f k)"
    using reparse loaded by (auto simp: set_newSet)
  then have "toKeys env (newSet (map (cidToString env) loaded))
               = Inr (map ?f (newSet (map (cidToString env) loaded)))"
    by (rule toKeys_map)
  moreover have "set (map ?f (newSet (map (cidToString env) loaded))) = set cs"
    using reparse loaded by (force simp: set_newSet image_iff)
  ultimately show ?thesis by blast
qed

lemma examplePut_contract:
  assumes "examplePut w n = Inr (c, w')"
  shows "dag w' c = Inr (PBNode n) \<and> preserves w w'"
  using assms
  by (auto simp: examplePut_def Let_def preserves_def split: sum.splits if_splits)

lemma example_service: "dagServiceContract exampleEnv"
  unfolding dagServiceContract_def
  using examplePut_contract by (simp add: exampleEnv_def)

lemma example_datastore: "datastoreContract exampleEnv"
  by (auto simp: datastoreContract_def exampleEnv_def exampleDatastorePut_def preserves_def)

lemma example_codec: "codecRoundTrip exampleEnv"
  unfolding codecRoundTrip_def
proof (intro allI impI conjI)
  fix w keys node c w1
  assume "storeSet exampleEnv w keys = Inr ((node, c), w1)"
  then have put: "examplePut w (DAGNode [] (map (DAGLink [] 0) keys)) = Inr (c, w1)"
    and node: "node = DAGNode [] (map (DAGLink [] 0) keys)"
    by (auto simp: exampleEnv_def exampleStoreSet_def Let_def split: sum.splits)
  from examplePut_contract [OF put]
  have stored: "dag w1 c = Inr (PBNode (DAGNode [] (map (DAGLink [] 0) keys)))"
    and keep: "preserves w w1"
    by simp_all
  show "preserves w w1" by (rule keep)
  fix w2 root name l
  assume "preserves w1 w2 \<and> find (\<lambda>l. Name l = name) (Links root) = Some l \<and> Hash l = c"
  then have "dag w2 (Hash l) = Inr (PBNode (DAGNode [] (map (DAGLink [] 0) keys)))"
    and "find (\<lambda>l. Name l = name) (Links root) = Some l"
    using stored by (auto simp: preserves_def)
  then have "loadSet exampleEnv w2 (PBNode root) name = Inr keys"
    by (simp add: exampleEnv_def exampleLoadSet_def comp_def)
  then show "\<exists>ks. loadSet exampleEnv w2 (PBNode root) name = Inr ks \<and> set ks = set keys"
    by simp
qed

lemma example_stable: "parseStable exampleEnv keys"
  by (auto simp: parseStable_def exampleEnv_def split: if_splits)

text \<open>
  C5. On a DAG service that keeps its contract and a pin-set codec that round-trips, with
  pins whose CIDs parse back from their canonical strings: after a \<^verbatim>\<open>flushPins\<close> that
  succeeded, \<^verbatim>\<open>load\<close> on a newly constructed manager succeeds, and its
  \<^verbatim>\<open>directKeys()\<close> and \<^verbatim>\<open>recursiveKeys()\<close> are, as sets, those of the manager
  that was flushed.
\<close>

theorem flush_then_load_roundtrip:
  assumes service: "dagServiceContract env" and store: "datastoreContract env"
    and codec: "codecRoundTrip env"
    and stable: "parseStable env (directPins pm)" "parseStable env (recursivePins pm)"
    and flushed: "flushPins env pm w = Inr w'"
  shows "\<exists>pm' dKeys rKeys dKeys' rKeys'.
           load env w' constructor = (Inr (), pm')
           \<and> directKeys env pm = Inr dKeys \<and> recursiveKeys env pm = Inr rKeys
           \<and> directKeys env pm' = Inr dKeys' \<and> recursiveKeys env pm' = Inr rKeys'
           \<and> set dKeys' = set dKeys \<and> set rKeys' = set rKeys"
proof -
  from flushed obtain dKeys dNode dCid w1 rKeys rNode rCid w2 c0 w3 rootCid w4 where
    dk: "directKeys env pm = Inr dKeys" and
    sd: "storeSet env w dKeys = Inr ((dNode, dCid), w1)" and
    rk: "recursiveKeys env pm = Inr rKeys" and
    sr: "storeSet env w1 rKeys = Inr ((rNode, rCid), w2)" and
    p0: "dagPut env w2 (DAGNode [] []) = Inr (c0, w3)" and
    p1: "dagPut env w3 (DAGNode [] [DAGLink direct (nodeSize env dNode) dCid,
                                    DAGLink recursive (nodeSize env rNode) rCid])
           = Inr (rootCid, w4)" and
    w': "datastorePut env w4 PIN_DS_KEY rootCid = Inr w'"
    by (auto simp: flushPins_def Let_def split: sum.splits prod.splits)
  let ?root = "DAGNode [] [DAGLink direct (nodeSize env dNode) dCid,
                           DAGLink recursive (nodeSize env rNode) rCid]"
  have key: "datastoreHas w' PIN_DS_KEY = Inr True" "datastoreGet w' PIN_DS_KEY = Inr rootCid"
    and p4: "preserves w4 w'"
    using store w' by (auto simp: datastoreContract_def)
  have "dag w4 rootCid = Inr (PBNode ?root)" and "preserves w3 w4"
    using service p1 by (auto simp: dagServiceContract_def)
  with p4 have root: "dag w' rootCid = Inr (PBNode ?root)" and p34: "preserves w3 w'"
    by (auto simp: preserves_def)
  have p23: "preserves w2 w3"
    using service p0 by (auto simp: dagServiceContract_def)
  have p12: "preserves w1 w2"
    using codec sr unfolding codecRoundTrip_def by blast
  have keep2: "preserves w2 w'"
    using p23 p34 by (rule preserves_trans)
  have keep1: "preserves w1 w'"
    using p12 keep2 by (rule preserves_trans)
  have "find (\<lambda>l. Name l = direct) (Links ?root)
          = Some (DAGLink direct (nodeSize env dNode) dCid)"
    by simp
  with codec sd keep1 obtain dLoaded where
    dl: "loadSet env w' (PBNode ?root) direct = Inr dLoaded" "set dLoaded = set dKeys"
    unfolding codecRoundTrip_def by (metis daglink.sel(3))
  have "find (\<lambda>l. Name l = recursive) (Links ?root)
          = Some (DAGLink recursive (nodeSize env rNode) rCid)"
    by (simp add: pinTypes_defs)
  with codec sr keep2 obtain rLoaded where
    rl: "loadSet env w' (PBNode ?root) recursive = Inr rLoaded" "set rLoaded = set rKeys"
    unfolding codecRoundTrip_def by (metis daglink.sel(3))
  let ?pm' = "\<lparr>directPins = newSet (map (cidToString env) dLoaded),
               recursivePins = newSet (map (cidToString env) rLoaded)\<rparr>"
  have loaded: "load env w' constructor = (Inr (), ?pm')"
    using key root dl(1) rl(1) by (simp add: load_def dagGet_def constructor_def)
  obtain dKeys' where dk': "directKeys env ?pm' = Inr dKeys'" "set dKeys' = set dKeys"
    using reload_keys [OF stable(1) _ dl(2)] dk by (auto simp: directKeys_def)
  obtain rKeys' where rk': "recursiveKeys env ?pm' = Inr rKeys'" "set rKeys' = set rKeys"
    using reload_keys [OF stable(2) _ rl(2)] rk by (auto simp: recursiveKeys_def)
  from loaded dk rk dk' rk' show ?thesis by blast
qed

theorem flush_then_load_roundtrip_witness:
  "\<exists>w' pm'. flushPins exampleEnv exampleBothPins exampleWorld = Inr w'
      \<and> load exampleEnv w' constructor = (Inr (), pm')
      \<and> directKeys exampleEnv exampleBothPins = Inr [cidC, cidD]
      \<and> recursiveKeys exampleEnv exampleBothPins = Inr [cidA]
      \<and> (\<exists>dKeys' rKeys'. directKeys exampleEnv pm' = Inr dKeys'
            \<and> recursiveKeys exampleEnv pm' = Inr rKeys'
            \<and> set dKeys' = {cidC, cidD} \<and> set rKeys' = {cidA})"
proof -
  have dk: "directKeys exampleEnv exampleBothPins = Inr [cidC, cidD]"
    and rk: "recursiveKeys exampleEnv exampleBothPins = Inr [cidA]"
    by (simp_all add: directKeys_def recursiveKeys_def exampleEnv_def exampleBothPins_def cid_defs)
  have "\<exists>w'. flushPins exampleEnv exampleBothPins exampleWorld = Inr w'"
    by (simp add: flushPins_def directKeys_def recursiveKeys_def exampleStoreSet_def
        examplePut_def exampleDatastorePut_def Let_def pinTypes_defs exampleBothPins_def
        example_defs)
  then obtain w' where flushed: "flushPins exampleEnv exampleBothPins exampleWorld = Inr w'" ..
  from flush_then_load_roundtrip
    [OF example_service example_datastore example_codec example_stable example_stable
      flushed] dk rk flushed
  show ?thesis by auto
qed

text \<open>
  C6. \<^verbatim>\<open>load\<close> returns normally and leaves the manager as it was when the pin-root key
  is absent. When it fails, the manager is as it was before the call; and it fails with the
  very error of \<^verbatim>\<open>datastore.has\<close>, of \<^verbatim>\<open>datastore.get\<close>, of the fetch of the
  root, or of a \<^verbatim>\<open>loadSet\<close>: of the one that rejects when the other does not, of the
  one that rejects first when both do. The manager changes only after both
  \<^verbatim>\<open>loadSet\<close> calls have succeeded.
\<close>

theorem load_absent_or_failed:
  "(datastoreHas w PIN_DS_KEY = Inr False \<longrightarrow> load env w pm = (Inr (), pm))
   \<and> (load env w pm = (Inl e, pm') \<longrightarrow> pm' = pm)
   \<and> (datastoreHas w PIN_DS_KEY = Inl e \<longrightarrow> load env w pm = (Inl e, pm))
   \<and> (datastoreHas w PIN_DS_KEY = Inr True \<and> datastoreGet w PIN_DS_KEY = Inl e
        \<longrightarrow> load env w pm = (Inl e, pm))
   \<and> (datastoreHas w PIN_DS_KEY = Inr True \<and> datastoreGet w PIN_DS_KEY = Inr mh
        \<and> dagGet w mh False = Inl e
        \<longrightarrow> load env w pm = (Inl e, pm))
   \<and> (datastoreHas w PIN_DS_KEY = Inr True \<and> datastoreGet w PIN_DS_KEY = Inr mh
        \<and> dagGet w mh False = Inr pinRoot
        \<and> loadSet env w pinRoot recursive = Inl e
        \<and> loadSet env w pinRoot direct = Inr dKeys
        \<longrightarrow> load env w pm = (Inl e, pm))
   \<and> (datastoreHas w PIN_DS_KEY = Inr True \<and> datastoreGet w PIN_DS_KEY = Inr mh
        \<and> dagGet w mh False = Inr pinRoot
        \<and> loadSet env w pinRoot recursive = Inr rKeys
        \<and> loadSet env w pinRoot direct = Inl e
        \<longrightarrow> load env w pm = (Inl e, pm))
   \<and> (datastoreHas w PIN_DS_KEY = Inr True \<and> datastoreGet w PIN_DS_KEY = Inr mh
        \<and> dagGet w mh False = Inr pinRoot
        \<and> loadSet env w pinRoot recursive = Inl er
        \<and> loadSet env w pinRoot direct = Inl ed
        \<longrightarrow> load env w pm = (Inl (if directRejectsFirst w then ed else er), pm))
   \<and> (load env w pm = (r, pm') \<and> pm' \<noteq> pm \<longrightarrow>
        r = Inr () \<and>
        (\<exists>mh pinRoot rKeys dKeys.
           datastoreGet w PIN_DS_KEY = Inr mh \<and> dagGet w mh False = Inr pinRoot
           \<and> loadSet env w pinRoot recursive = Inr rKeys
           \<and> loadSet env w pinRoot direct = Inr dKeys))"
  by (auto simp: load_def Let_def split: option.splits sum.splits)

theorem load_absent_or_failed_witness:
  "load exampleEnv exampleWorld exampleBothPins = (Inr (), exampleBothPins)
   \<and> load exampleEnv closedWorld exampleBothPins = (Inl readFailed, exampleBothPins)
   \<and> load exampleEnv unreadableWorld exampleBothPins = (Inl readFailed, exampleBothPins)
   \<and> load exampleEnv danglingWorld exampleBothPins = (Inl notFound, exampleBothPins)
   \<and> load exampleEnv recursiveOnlyWorld exampleBothPins
       = (Inl (Error ''No link found with name direct'' None), exampleBothPins)
   \<and> load exampleEnv directOnlyWorld exampleBothPins
       = (Inl (Error ''No link found with name recursive'' None), exampleBothPins)
   \<and> load exampleEnv undecodableWorld exampleBothPins
       = (Inl (Error ''No link found with name recursive'' None), exampleBothPins)
   \<and> load exampleEnv undecodableDirectFirstWorld exampleBothPins
       = (Inl (Error ''No link found with name direct'' None), exampleBothPins)
   \<and> load exampleEnv storedWorld constructor
       = (Inr (), \<lparr>directPins = [''C''], recursivePins = [''A'']\<rparr>)
   \<and> (\<exists>pinRoot rKeys dKeys.
         dagGet storedWorld (CID 0 ''dag-pb'' ''root'') False = Inr pinRoot
         \<and> loadSet exampleEnv storedWorld pinRoot recursive = Inr rKeys
         \<and> loadSet exampleEnv storedWorld pinRoot direct = Inr dKeys)"
proof -
  note worlds = exampleWorld_def closedWorld_def unreadableWorld_def danglingWorld_def
    undecodableWorld_def undecodableDirectFirstWorld_def directOnlyWorld_def
    recursiveOnlyWorld_def
  note codec = exampleEnv_def exampleLoadSet_def dagGet_def exampleDag_def cid_defs
    pinTypes_defs
  have absent: "load exampleEnv exampleWorld exampleBothPins = (Inr (), exampleBothPins)"
    using load_absent_or_failed [where env = exampleEnv and w = exampleWorld
        and pm = exampleBothPins, THEN conjunct1]
    by (simp add: worlds)
  have closed: "load exampleEnv closedWorld exampleBothPins = (Inl readFailed, exampleBothPins)"
    using load_absent_or_failed [where env = exampleEnv and w = closedWorld
        and pm = exampleBothPins and e = readFailed,
        THEN conjunct2, THEN conjunct2, THEN conjunct1]
    by (simp add: worlds)
  have unreadable:
    "load exampleEnv unreadableWorld exampleBothPins = (Inl readFailed, exampleBothPins)"
    using load_absent_or_failed [where env = exampleEnv and w = unreadableWorld
        and pm = exampleBothPins and e = readFailed,
        THEN conjunct2, THEN conjunct2, THEN conjunct2, THEN conjunct1]
    by (simp add: worlds)
  obtain r pm' where run: "load exampleEnv danglingWorld exampleBothPins = (r, pm')"
    by (cases "load exampleEnv danglingWorld exampleBothPins")
  then have "r = Inl notFound"
    by (simp add: load_def worlds dagGet_def exampleDag_def cid_defs)
  with run have dangling:
    "load exampleEnv danglingWorld exampleBothPins = (Inl notFound, exampleBothPins)"
    using load_absent_or_failed [where env = exampleEnv and w = danglingWorld
        and pm = exampleBothPins and e = notFound and pm' = pm',
        THEN conjunct2, THEN conjunct1]
    by simp
  have recursiveOnly: "load exampleEnv recursiveOnlyWorld exampleBothPins
          = (Inl (Error ''No link found with name direct'' None), exampleBothPins)"
    using load_absent_or_failed [where env = exampleEnv and w = recursiveOnlyWorld
        and pm = exampleBothPins and e = "Error ''No link found with name direct'' None"
        and mh = "CID 0 ''dag-pb'' ''root''"
        and pinRoot = "PBNode (DAGNode [] [DAGLink recursive 0 cidC])" and rKeys = "[]",
        THEN conjunct2, THEN conjunct2, THEN conjunct2, THEN conjunct2, THEN conjunct2,
        THEN conjunct2, THEN conjunct1]
    by (simp add: worlds codec)
  have directOnly: "load exampleEnv directOnlyWorld exampleBothPins
          = (Inl (Error ''No link found with name recursive'' None), exampleBothPins)"
    using load_absent_or_failed [where env = exampleEnv and w = directOnlyWorld
        and pm = exampleBothPins and e = "Error ''No link found with name recursive'' None"
        and mh = "CID 0 ''dag-pb'' ''root''"
        and pinRoot = "PBNode (DAGNode [] [DAGLink direct 0 cidC])" and dKeys = "[]",
        THEN conjunct2, THEN conjunct2, THEN conjunct2, THEN conjunct2, THEN conjunct2,
        THEN conjunct1]
    by (simp add: worlds codec)
  have undecodable: "load exampleEnv undecodableWorld exampleBothPins
          = (Inl (Error ''No link found with name recursive'' None), exampleBothPins)"
    using load_absent_or_failed [where env = exampleEnv and w = undecodableWorld
        and pm = exampleBothPins and er = "Error ''No link found with name recursive'' None"
        and ed = "Error ''No link found with name direct'' None" and mh = cidC
        and pinRoot = "PBNode (DAGNode [] [])",
        THEN conjunct2, THEN conjunct2, THEN conjunct2, THEN conjunct2, THEN conjunct2,
        THEN conjunct2, THEN conjunct2, THEN conjunct1]
    by (simp add: worlds codec)
  have undecodableDirect: "load exampleEnv undecodableDirectFirstWorld exampleBothPins
          = (Inl (Error ''No link found with name direct'' None), exampleBothPins)"
    using load_absent_or_failed [where env = exampleEnv and w = undecodableDirectFirstWorld
        and pm = exampleBothPins and er = "Error ''No link found with name recursive'' None"
        and ed = "Error ''No link found with name direct'' None" and mh = cidC
        and pinRoot = "PBNode (DAGNode [] [])",
        THEN conjunct2, THEN conjunct2, THEN conjunct2, THEN conjunct2, THEN conjunct2,
        THEN conjunct2, THEN conjunct2, THEN conjunct1]
    by (simp add: worlds codec)
  have stored: "load exampleEnv storedWorld constructor
                  = (Inr (), \<lparr>directPins = [''C''], recursivePins = [''A'']\<rparr>)"
    by (simp add: load_def storedWorld_def exampleWorld_def dagGet_def exampleEnv_def
        exampleLoadSet_def pinTypes_defs newSet_def setAdd_def constructor_def cid_defs)
  have "\<lparr>directPins = [''C''], recursivePins = [''A'']\<rparr> \<noteq> constructor"
    by (simp add: constructor_def)
  with stored load_absent_or_failed [where env = exampleEnv and w = storedWorld
        and pm = constructor and r = "Inr ()"
        and pm' = "\<lparr>directPins = [''C''], recursivePins = [''A'']\<rparr>",
        THEN conjunct2, THEN conjunct2, THEN conjunct2, THEN conjunct2, THEN conjunct2,
        THEN conjunct2, THEN conjunct2, THEN conjunct2]
  have "\<exists>mh pinRoot rKeys dKeys. datastoreGet storedWorld PIN_DS_KEY = Inr mh
           \<and> dagGet storedWorld mh False = Inr pinRoot
           \<and> loadSet exampleEnv storedWorld pinRoot recursive = Inr rKeys
           \<and> loadSet exampleEnv storedWorld pinRoot direct = Inr dKeys"
    by blast
  then have decoded: "\<exists>pinRoot rKeys dKeys.
         dagGet storedWorld (CID 0 ''dag-pb'' ''root'') False = Inr pinRoot
         \<and> loadSet exampleEnv storedWorld pinRoot recursive = Inr rKeys
         \<and> loadSet exampleEnv storedWorld pinRoot direct = Inr dKeys"
    by (simp add: storedWorld_def)
  from absent closed unreadable dangling recursiveOnly directOnly undecodable
    undecodableDirect stored decoded
  show ?thesis by (intro conjI)
qed

end
